theory Spec2Isabelle
  imports Main "HOL-Library.Sublist" "HOL-Library.AList"
begin

section \<open>Exceptions and the log\<close>

text \<open>
  Python exceptions are values. The constructors are the classes the two modules raise or
  catch by name; \<open>OtherException cls msg\<close> is any other subclass of \<open>Exception\<close>, with its
  class name. A \<open>KeyError\<close> carries the missing key, the others their message.
\<close>

datatype exn =
    RuntimeError string
  | KeyError string
  | TypeError string
  | SchemaError string
  | OtherException string string

text \<open>
  One entry per logging call that was executed, in order. \<open>Info msg\<close> is \<open>logger.info(msg)\<close>
  and \<open>Error msg\<close> is \<open>logger.error(msg)\<close>. The two calls that format an exception keep
  their arguments apart: \<open>CouldNotImport song err\<close> is
  \<open>logger.warn(f'Could not import {song}: {err}')\<close> and \<open>CouldNotSave jams_path jes\<close> is
  \<open>logging.error(f"Could not save: {jams_path} because error occurred: {jes}")\<close>.
\<close>

datatype log_entry =
    Info string
  | Error string
  | CouldNotImport string exn
  | CouldNotSave string exn

section \<open>parsers.py\<close>

subsection \<open>Regular expressions and string methods used by the module\<close>

text \<open>
  \<open>str.strip()\<close> removes leading and trailing whitespace. A \<open>char\<close> is a code point below
  256; the whitespace of Python among those is U+0009..U+000D, U+001C..U+0020, U+0085 and
  U+00A0.
\<close>

definition is_space :: "char \<Rightarrow> bool" where
  "is_space c = ((of_char c :: nat) \<in> {9, 10, 11, 12, 13, 28, 29, 30, 31, 32, 133, 160})"

definition strip :: "string \<Rightarrow> string" where
  "strip s = rev (dropWhile is_space (rev (dropWhile is_space s)))"

text \<open>
  \<open>re.split(r'\||LZ|K|Z|{|}|\[|\]', chord_string)\<close>: the string is scanned from the left; at
  each position one of the markers \<open>|\<close>, \<open>LZ\<close>, \<open>K\<close>, \<open>Z\<close>, \<open>{\<close>, \<open>}\<close>, \<open>[\<close>, \<open>]\<close> ends the
  current piece, any other character joins it. The first argument is the piece read so
  far. The result always has one piece more than there were markers.
\<close>

fun re_split_markers :: "string \<Rightarrow> string \<Rightarrow> string list" where
  "re_split_markers acc [] = [acc]"
| "re_split_markers acc (c # cs) =
     (if c \<in> set ''|KZ{}[]'' then acc # re_split_markers [] cs
      else if c = CHR ''L'' \<and> take 1 cs = ''Z'' then acc # re_split_markers [] (drop 1 cs)
      else re_split_markers (acc @ [c]) cs)"

text \<open>
  \<open>re.split("===", payload)\<close>: leftmost, non-overlapping occurrences of the three
  characters end the current piece.
\<close>

fun re_split_songs :: "string \<Rightarrow> string \<Rightarrow> string list" where
  "re_split_songs acc [] = [acc]"
| "re_split_songs acc (c # cs) =
     (if c = CHR ''='' \<and> take 2 cs = ''=='' then acc # re_split_songs [] (drop 2 cs)
      else re_split_songs (acc @ [c]) cs)"

text \<open>
  \<open>re.match(r'irealb://([^"]+)', url)\<close>: the match is anchored at the start of the string;
  group 1 is the longest run of characters other than the double quote after the scheme
  prefix, and the match fails when that run is empty. The result is group 1.
\<close>

definition re_match_irealb :: "string \<Rightarrow> string option" where
  "re_match_irealb url =
     (if prefix ''irealb://'' url
      then (let g = takeWhile (\<lambda>c. c \<noteq> CHR 0x22) (drop (length ''irealb://'') url)
            in if g = [] then None else Some g)
      else None)"

subsection \<open>ChoCoTune.\_get\_measures\<close>

text \<open>
  The class methods that \<open>ChoCoTune\<close> inherits from \<open>pyRealParser.Tune\<close> are not part of
  the repository; they are the fields of this record, under the names the source calls
  them by (without the leading underscore).
\<close>

record tune_methods =
  cleanup_chord_string :: "string \<Rightarrow> string"
  remove_annotations :: "string \<Rightarrow> string"
  fill_long_repeats :: "string \<Rightarrow> string"
  fill_codas :: "string \<Rightarrow> string"
  fill_single_double_repeats :: "string list \<Rightarrow> string list"
  fill_slashes :: "string list \<Rightarrow> string list"

text \<open>Lines 26 and 27: the split and the list comprehension that drops blank pieces.\<close>

definition split_measures :: "string \<Rightarrow> string list" where
  "split_measures chord_string =
     (let measures = re_split_markers [] chord_string
      in [strip m. m \<leftarrow> measures, strip m \<noteq> []])"

definition get_measures :: "tune_methods \<Rightarrow> string \<Rightarrow> string list" where
  "get_measures cls chord_string =
     (let chord_string = cleanup_chord_string cls chord_string;
          chord_string = remove_annotations cls chord_string;
          chord_string = fill_long_repeats cls chord_string;
          chord_string = fill_codas cls chord_string;
          measures = split_measures chord_string;
          measures = fill_single_double_repeats cls measures;
          measures = fill_slashes cls measures
      in measures)"

text \<open>
  Inherited methods that change nothing: what the rewriting stages do on a string without
  annotations, repeats, codas or slashes. Used to run \<open>get_measures\<close> on concrete strings.
\<close>

definition plain_methods :: tune_methods where
  "plain_methods =
     \<lparr>cleanup_chord_string = (\<lambda>s. s), remove_annotations = (\<lambda>s. s),
      fill_long_repeats = (\<lambda>s. s), fill_codas = (\<lambda>s. s),
      fill_single_double_repeats = (\<lambda>ms. ms), fill_slashes = (\<lambda>ms. ms)\<rparr>"

subsection \<open>ChoCoTune.parse\_ireal\_url\<close>

text \<open>
  The loop over the songs, with the list of tunes and the log as its state. \<open>ChoCoTune\<close> is
  the constructor (inherited, not part of the repository): it returns the tune or raises.
  \<open>except Exception\<close> catches every exception of the model.
\<close>

fun import_songs ::
  "(string \<Rightarrow> exn + 'tune) \<Rightarrow> ('tune \<Rightarrow> string) \<Rightarrow> string list
    \<Rightarrow> 'tune list \<times> log_entry list \<Rightarrow> 'tune list \<times> log_entry list" where
  "import_songs ChoCoTune title [] st = st"
| "import_songs ChoCoTune title (song # songs) (tunes, lg) =
     (if song \<noteq> []
      then (case ChoCoTune song of
              Inr tune \<Rightarrow>
                import_songs ChoCoTune title songs
                  (tunes @ [tune], lg @ [Info (''Parsed '' @ title tune)])
            | Inl err \<Rightarrow>
                import_songs ChoCoTune title songs (tunes, lg @ [CouldNotImport song err]))
      else import_songs ChoCoTune title songs (tunes, lg))"

text \<open>
  \<open>unquote\<close> is \<open>urllib.parse.unquote\<close>. The result is the returned list or the exception
  raised, together with the log.
\<close>

definition parse_ireal_url ::
  "(string \<Rightarrow> string) \<Rightarrow> (string \<Rightarrow> exn + 'tune) \<Rightarrow> ('tune \<Rightarrow> string) \<Rightarrow> string
    \<Rightarrow> log_entry list \<Rightarrow> (exn + 'tune list) \<times> log_entry list" where
  "parse_ireal_url unquote ChoCoTune title url lg =
     (let url = unquote url
      in case re_match_irealb url of
           None \<Rightarrow> (Inl (RuntimeError ''Provided string is not a valid iReal url!''), lg)
         | Some group1 \<Rightarrow>
             (let songs = re_split_songs [] group1;
                  (tunes, lg') = import_songs ChoCoTune title songs ([], lg)
              in (Inr tunes, lg')))"

section \<open>converters/lark\_converter.py\<close>



section \<open>converters/converter\_instances.py\<close>

subsection \<open>The annotation container\<close>

text \<open>
  An observation of the \<open>jams\<close> library is an immutable tuple of time, duration, value and
  confidence. The numbers are only copied, so their type is a parameter; the values that
  \<open>parse_jams\<close> converts are strings. An annotation is a namespace and its observations
  in the order in which iterating over it yields them.
\<close>

record 'n observation =
  time :: 'n
  duration :: 'n
  obs_value :: string
  confidence :: 'n

record 'n annotation =
  namespace :: string
  data :: "'n observation list"

text \<open>
  A container holds annotation objects. In the container that \<open>parse_jams\<close> builds, an
  entry is either one of the objects loaded from the input file or an object that
  \<open>parse_jams\<close> constructed; \<open>origin\<close> records which, since two objects with equal
  contents are still two objects.
\<close>

datatype origin = Original | Converted

record ('a, 'm) jams =
  file_metadata :: 'm
  sandbox :: 'm
  annotations :: "'a list"

text \<open>
  \<open>jams.Annotation(namespace=ns)\<close> and \<open>Annotation.append(time, duration, value, confidence)\<close>.
  The library keeps the observations of an annotation sorted by time; the loops below read
  them in that order and append them in that order, so each one is added at the end.
\<close>

definition new_annotation :: "string \<Rightarrow> 'n annotation" where
  "new_annotation ns = \<lparr>namespace = ns, data = []\<rparr>"

definition ann_append :: "'n annotation \<Rightarrow> 'n \<Rightarrow> 'n \<Rightarrow> string \<Rightarrow> 'n \<Rightarrow> 'n annotation" where
  "ann_append a t d v c =
     a\<lparr>data := data a @ [\<lparr>time = t, duration = d, obs_value = v, confidence = c\<rparr>]\<rparr>"

subsection \<open>Dictionaries and strings\<close>

text \<open>
  The conversion metadata is a dictionary from (original, converted) to a count, kept as an
  association list in insertion order. \<open>dict_incr\<close> is \<open>chord_metadata[key] += 1\<close> on a
  \<open>defaultdict(int)\<close>; \<open>dict_update\<close> is \<open>metadata.update(file_metadata)\<close>, which assigns
  every item of its argument.
\<close>

type_synonym metadata = "((string \<times> string) \<times> int) list"

definition dict_incr :: "string \<times> string \<Rightarrow> metadata \<Rightarrow> metadata" where
  "dict_incr key md =
     AList.update key ((case map_of md key of None \<Rightarrow> 0 | Some n \<Rightarrow> n) + 1) md"

definition dict_update :: "metadata \<Rightarrow> metadata \<Rightarrow> metadata" where
  "dict_update md other = fold (\<lambda>(key, v) d. AList.update key v d) other md"

text \<open>
  \<open>s.replace(old, new)\<close> for a non-empty \<open>old\<close>: every leftmost, non-overlapping
  occurrence is replaced.
\<close>

fun str_replace :: "string \<Rightarrow> string \<Rightarrow> string \<Rightarrow> string" where
  "str_replace old new [] = []"
| "str_replace old new (c # cs) =
     (if old \<noteq> [] \<and> prefix old (c # cs)
      then new @ str_replace old new (drop (length old - 1) cs)
      else c # str_replace old new cs)"

text \<open>\<open>os.path.join(a, b)\<close> on a POSIX system.\<close>

definition path_join :: "string \<Rightarrow> string \<Rightarrow> string" where
  "path_join a b =
     (if take 1 b = ''/'' then b
      else if a = [] \<or> take 1 (rev a) = ''/'' then a @ b
      else a @ ''/'' @ b)"

subsection \<open>parse\_jams\<close>

text \<open>
  Lines 44 to 50, the loop over the observations of a chord annotation. Its state is the
  annotation under construction, the metadata of the file and the log. \<open>ChordConverter\<close>
  (module \<open>chord_converter\<close>, not among the sources) is a parameter: the constructor
  returns the function \<open>convert_chords\<close> of the new converter or raises, and
  \<open>convert_chords\<close> returns the converted string or raises. No exception is caught here.
\<close>

fun convert_chord_observations ::
  "(string \<Rightarrow> exn + (string \<Rightarrow> exn + string)) \<Rightarrow> string \<Rightarrow> 'n observation list
    \<Rightarrow> 'n annotation \<times> metadata \<times> log_entry list
    \<Rightarrow> (exn + 'n annotation \<times> metadata) \<times> log_entry list" where
  "convert_chord_observations ChordConverter annotation_type []
       (converted_annotation, chord_metadata, lg) =
     (Inr (converted_annotation, chord_metadata), lg)"
| "convert_chord_observations ChordConverter annotation_type (observation # rest)
       (converted_annotation, chord_metadata, lg) =
     (let lg = lg @ [Info (''Converting chord: '' @ obs_value observation)]
      in case ChordConverter annotation_type of
           Inl e \<Rightarrow> (Inl e, lg)
         | Inr convert_chords \<Rightarrow>
             (case convert_chords (obs_value observation) of
                Inl e \<Rightarrow> (Inl e, lg)
              | Inr converted_value \<Rightarrow>
                  convert_chord_observations ChordConverter annotation_type rest
                    (ann_append converted_annotation (time observation) (duration observation)
                       converted_value (confidence observation),
                     dict_incr (obs_value observation, converted_value) chord_metadata,
                     lg)))"

text \<open>
  Lines 54 to 62, the loop over the observations of a key annotation. Neither the three
  replacements nor the append raise on a string value and numeric times, so the handler of
  \<open>ValueError\<close> is never entered.
\<close>

definition convert_key :: "string \<Rightarrow> string" where
  "convert_key v =
     str_replace ''min'' ''minor'' (str_replace ''maj'' ''major'' (str_replace ''-'' '':'' v))"

fun convert_key_observations :: "'n observation list \<Rightarrow> 'n annotation \<Rightarrow> 'n annotation" where
  "convert_key_observations [] converted_annotation = converted_annotation"
| "convert_key_observations (key_observation # rest) converted_annotation =
     (let converted_key = convert_key (obs_value key_observation)
      in convert_key_observations rest
           (ann_append converted_annotation (time key_observation) (duration key_observation)
              converted_key (confidence key_observation)))"

text \<open>
  Lines 41 to 63, the loop over the loaded annotations. \<open>CHORD_NAMESPACES\<close> (module
  \<open>constants\<close>, not among the sources) is a parameter.
\<close>

fun convert_annotations ::
  "string list \<Rightarrow> (string \<Rightarrow> exn + (string \<Rightarrow> exn + string)) \<Rightarrow> string
    \<Rightarrow> 'n annotation list \<Rightarrow> 'n annotation list \<times> metadata \<times> log_entry list
    \<Rightarrow> (exn + 'n annotation list \<times> metadata) \<times> log_entry list" where
  "convert_annotations CHORD_NAMESPACES ChordConverter annotation_type []
       (all_annotations, chord_metadata, lg) =
     (Inr (all_annotations, chord_metadata), lg)"
| "convert_annotations CHORD_NAMESPACES ChordConverter annotation_type (annotation # rest)
       (all_annotations, chord_metadata, lg) =
     (if namespace annotation \<in> set CHORD_NAMESPACES
      then (case convert_chord_observations ChordConverter annotation_type (data annotation)
                   (new_annotation ''chord_harte'', chord_metadata, lg) of
              (Inl e, lg') \<Rightarrow> (Inl e, lg')
            | (Inr (converted_annotation, chord_metadata'), lg') \<Rightarrow>
                convert_annotations CHORD_NAMESPACES ChordConverter annotation_type rest
                  (all_annotations @ [converted_annotation], chord_metadata', lg'))
      else if namespace annotation = ''key_mode''
      then convert_annotations CHORD_NAMESPACES ChordConverter annotation_type rest
             (all_annotations @
                [convert_key_observations (data annotation) (new_annotation ''key_mode'')],
              chord_metadata, lg)
      else convert_annotations CHORD_NAMESPACES ChordConverter annotation_type rest
             (all_annotations, chord_metadata, lg))"

text \<open>
  Lines 65 to 71: the loaded objects first, unless \<open>replace\<close> is set and except those of
  namespace \<open>key_mode\<close>, then the constructed ones.
\<close>

definition merge_annotations ::
  "bool \<Rightarrow> 'n annotation list \<Rightarrow> 'n annotation list \<Rightarrow> (origin \<times> 'n annotation) list" where
  "merge_annotations replace original_annotations all_annotations =
     (if replace = False
      then [(Original, oa). oa \<leftarrow> original_annotations, namespace oa \<noteq> ''key_mode'']
      else [])
     @ [(Converted, a). a \<leftarrow> all_annotations]"

text \<open>
  Lines 32 to 71: the container and the metadata that \<open>parse_jams\<close> builds from the loaded
  file, before it saves.
\<close>

definition build_jam ::
  "string list \<Rightarrow> (string \<Rightarrow> exn + (string \<Rightarrow> exn + string)) \<Rightarrow> string \<Rightarrow> bool
    \<Rightarrow> ('n annotation, 'm) jams \<Rightarrow> log_entry list
    \<Rightarrow> (exn + (origin \<times> 'n annotation, 'm) jams \<times> metadata) \<times> log_entry list" where
  "build_jam CHORD_NAMESPACES ChordConverter annotation_type replace original_jams lg =
     (let original_annotations = annotations original_jams
      in case convert_annotations CHORD_NAMESPACES ChordConverter annotation_type
                original_annotations ([], [], lg) of
           (Inl e, lg') \<Rightarrow> (Inl e, lg')
         | (Inr (all_annotations, chord_metadata), lg') \<Rightarrow>
             (Inr (\<lparr>file_metadata = file_metadata original_jams,
                     sandbox = sandbox original_jams,
                     annotations =
                       merge_annotations replace original_annotations all_annotations\<rparr>,
                   chord_metadata), lg'))"

text \<open>
  What is outside the program: the converter and its namespaces, the directory listing,
  loading, saving and the sort of the table.

  \<open>save path jam\<close> is \<open>jam.save(path, strict=False)\<close>: \<open>None\<close> when the file was written
  and the exception otherwise. With \<open>strict=False\<close> the library reports a violation of the
  schema as a warning and does not raise \<open>SchemaError\<close>; the exceptions that this call
  raises are those of writing the file (\<open>OSError\<close> and its subclasses).

  \<open>sort_values rows\<close> is \<open>DataFrame.sort_values(by=['occurrences'])\<close>: the rows in
  ascending order of the count, the order among equal counts being the library's.
\<close>

record ('n, 'm) env =
  CHORD_NAMESPACES :: "string list"
  ChordConverter :: "string \<Rightarrow> exn + (string \<Rightarrow> exn + string)"
  create_dir :: "string \<Rightarrow> string"
  listdir :: "string \<Rightarrow> string list"
  isfile :: "string \<Rightarrow> bool"
  load :: "string \<Rightarrow> exn + ('n annotation, 'm) jams"
  save :: "string \<Rightarrow> (origin \<times> 'n annotation, 'm) jams \<Rightarrow> exn option"
  sort_values :: "(string \<times> string \<times> int) list \<Rightarrow> (string \<times> string \<times> int) list"

text \<open>What the program leaves behind: the log, the saved containers and the tables written.\<close>

record ('n, 'm) world =
  logs :: "log_entry list"
  saved :: "(string \<times> (origin \<times> 'n annotation, 'm) jams) list"
  tables :: "(string \<times> (string \<times> string \<times> int) list) list"

text \<open>
  \<open>parse_jams\<close> returns the metadata of the file when the container was saved. When saving
  raises \<open>SchemaError\<close> the handler logs, and the function ends without a \<open>return\<close>: the
  result is \<open>None\<close>. Any other exception of \<open>save\<close> is not caught.
\<close>

definition parse_jams ::
  "('n, 'm) env \<Rightarrow> string \<Rightarrow> string \<Rightarrow> string \<Rightarrow> string \<Rightarrow> bool \<Rightarrow> ('n, 'm) world
    \<Rightarrow> (exn + metadata option) \<times> ('n, 'm) world" where
  "parse_jams E jams_path output_path annotation_type filename replace w =
     (case load E jams_path of
        Inl e \<Rightarrow> (Inl e, w)
      | Inr original_jams \<Rightarrow>
          (case build_jam (CHORD_NAMESPACES E) (ChordConverter E) annotation_type replace
                  original_jams (logs w) of
             (Inl e, lg) \<Rightarrow> (Inl e, w\<lparr>logs := lg\<rparr>)
           | (Inr (jam, chord_metadata), lg) \<Rightarrow>
               (case save E (path_join output_path filename) jam of
                  None \<Rightarrow>
                    (Inr (Some chord_metadata),
                     w\<lparr>logs := lg,
                       saved := saved w @ [(path_join output_path filename, jam)]\<rparr>)
                | Some (SchemaError jes) \<Rightarrow>
                    (Inr None, w\<lparr>logs := lg @ [CouldNotSave jams_path (SchemaError jes)]\<rparr>)
                | Some e \<Rightarrow> (Inl e, w\<lparr>logs := lg\<rparr>))))"

subsection \<open>parse\_jams\_dataset\<close>

text \<open>The message of the \<open>TypeError\<close> that \<open>dict.update(None)\<close> raises.\<close>

definition none_not_iterable :: string where
  "none_not_iterable = [CHR 0x27] @ ''NoneType'' @ [CHR 0x27] @ '' object is not iterable''"

text \<open>Lines 88 to 93, the loop over the directory listing, with the metadata as its state.\<close>

fun convert_files ::
  "('n, 'm) env \<Rightarrow> string \<Rightarrow> string \<Rightarrow> string \<Rightarrow> bool \<Rightarrow> string list
    \<Rightarrow> metadata \<times> ('n, 'm) world \<Rightarrow> (exn + metadata) \<times> ('n, 'm) world" where
  "convert_files E jams_path converted_jams_dir annotation_type replace [] (metadata, w) =
     (Inr metadata, w)"
| "convert_files E jams_path converted_jams_dir annotation_type replace (file # files)
       (metadata, w) =
     (if isfile E (path_join jams_path file)
      then (let w = w\<lparr>logs := logs w @
                       [Info ([CHR 0x0A] @ ''Converting observation for file: '' @ file
                              @ [CHR 0x0A])]\<rparr>
            in case parse_jams E (path_join jams_path file) converted_jams_dir annotation_type
                      file replace w of
                 (Inl e, w') \<Rightarrow> (Inl e, w')
               | (Inr None, w') \<Rightarrow> (Inl (TypeError none_not_iterable), w')
               | (Inr (Some file_meta), w') \<Rightarrow>
                   convert_files E jams_path converted_jams_dir annotation_type replace files
                     (dict_update metadata file_meta, w'))
      else convert_files E jams_path converted_jams_dir annotation_type replace files
             (metadata, w))"

text \<open>
  Lines 95 to 101: the rows of the table are the items of the metadata, each a pair and
  its count, sorted by the library.
\<close>

definition metadata_table ::
  "('n, 'm) env \<Rightarrow> metadata \<Rightarrow> (string \<times> string \<times> int) list" where
  "metadata_table E metadata =
     sort_values E [(fst (fst meta), snd (fst meta), snd meta). meta \<leftarrow> metadata]"

definition parse_jams_dataset ::
  "('n, 'm) env \<Rightarrow> string \<Rightarrow> string \<Rightarrow> string \<Rightarrow> bool \<Rightarrow> ('n, 'm) world
    \<Rightarrow> (exn + unit) \<times> ('n, 'm) world" where
  "parse_jams_dataset E jams_path output_path annotation_type replace w =
     (let converted_jams_dir = create_dir E (path_join output_path ''jams_converted'');
          jams_files = listdir E jams_path
      in case convert_files E jams_path converted_jams_dir annotation_type replace jams_files
                ([], w) of
           (Inl e, w') \<Rightarrow> (Inl e, w')
         | (Inr metadata, w') \<Rightarrow>
             (Inr (),
              w'\<lparr>tables := tables w' @
                   [(path_join output_path ''conversion_meta.csv'',
                     metadata_table E metadata)]\<rparr>))"

section \<open>Concrete inputs\<close>

text \<open>
  A converter, input files and a file system on which the definitions above are run.
  The converter knows the annotation type \<open>leadsheet\<close> only. It appends \<open>:maj\<close> to a
  chord; the empty chord and \<open>H7\<close> it cannot parse, and it raises the exception of the
  parser, whose message is not the chord.
\<close>

definition example_converter :: "string \<Rightarrow> exn + (string \<Rightarrow> exn + string)" where
  "example_converter annotation_type =
     (if annotation_type = ''leadsheet''
      then Inr (\<lambda>chord. if chord = [] \<or> chord = ''H7''
                         then Inl (OtherException ''UnexpectedInput'' ''No terminal matches'')
                         else Inr (chord @ '':maj''))
      else Inl (OtherException ''ValueError'' annotation_type))"

definition obs :: "int \<Rightarrow> int \<Rightarrow> string \<Rightarrow> int observation" where
  "obs t d v = \<lparr>time = t, duration = d, obs_value = v, confidence = 1\<rparr>"

text \<open>
  File \<open>a.jams\<close>: the chord C twice, and a key. File \<open>b.jams\<close>: the chord C once. File
  \<open>c.jams\<close>: the chords C, H7 and G.
\<close>

definition chord_a :: "int annotation" where
  "chord_a = \<lparr>namespace = ''chord'', data = [obs 0 2 ''C'', obs 2 2 ''C'']\<rparr>"

definition key_a :: "int annotation" where
  "key_a = \<lparr>namespace = ''key_mode'', data = [obs 0 4 ''G-min'']\<rparr>"

definition chord_b :: "int annotation" where
  "chord_b = \<lparr>namespace = ''chord'', data = [obs 0 4 ''C'']\<rparr>"

definition chord_c :: "int annotation" where
  "chord_c = \<lparr>namespace = ''chord'', data = [obs 0 1 ''C'', obs 1 1 ''H7'', obs 2 2 ''G'']\<rparr>"

definition file_a :: "(int annotation, string) jams" where
  "file_a =
     \<lparr>file_metadata = ''meta a'', sandbox = ''sandbox a'', annotations = [chord_a, key_a]\<rparr>"

definition file_b :: "(int annotation, string) jams" where
  "file_b = \<lparr>file_metadata = ''meta b'', sandbox = ''sandbox b'', annotations = [chord_b]\<rparr>"

definition file_c :: "(int annotation, string) jams" where
  "file_c = \<lparr>file_metadata = ''meta c'', sandbox = ''sandbox c'', annotations = [chord_c]\<rparr>"

text \<open>
  The directory \<open>in\<close> holds \<open>a.jams\<close> and \<open>b.jams\<close>, the directory \<open>in2\<close> holds \<open>c.jams\<close>.
  \<open>example_env save\<close> saves as \<open>save\<close> says; its sort is a stable one.
\<close>

definition example_env ::
  "(string \<Rightarrow> (origin \<times> int annotation, string) jams \<Rightarrow> exn option) \<Rightarrow> (int, string) env" where
  "example_env save_result =
     \<lparr>CHORD_NAMESPACES = [''chord'', ''chord_harte''],
      ChordConverter = example_converter,
      create_dir = (\<lambda>path. path),
      listdir = (\<lambda>path. if path = ''in'' then [''a.jams'', ''b.jams'']
                         else if path = ''in2'' then [''c.jams''] else []),
      isfile = (\<lambda>path. path = ''in/a.jams'' \<or> path = ''in/b.jams'' \<or> path = ''in2/c.jams''),
      load = (\<lambda>path. if path = ''in/a.jams'' then Inr file_a
                      else if path = ''in/b.jams'' then Inr file_b
                      else if path = ''in2/c.jams'' then Inr file_c
                      else Inl (OtherException ''FileNotFoundError'' path)),
      save = save_result,
      sort_values = sort_key (\<lambda>(original_chord, converted_chord, occurrences). occurrences)\<rparr>"

definition empty_world :: "(int, string) world" where
  "empty_world = \<lparr>logs = [], saved = [], tables = []\<rparr>"

text \<open>
  Saving always succeeds; the converted \<open>a.jams\<close> cannot be written, the output file
  being write-protected, and \<open>open\<close> raises \<open>PermissionError\<close>.
\<close>

definition save_ok :: "string \<Rightarrow> (origin \<times> int annotation, string) jams \<Rightarrow> exn option" where
  "save_ok path jam = None"

definition save_a_denied ::
  "string \<Rightarrow> (origin \<times> int annotation, string) jams \<Rightarrow> exn option" where
  "save_a_denied path jam =
     (if path = ''out/jams_converted/a.jams''
      then Some (OtherException ''PermissionError'' ''Permission denied'')
      else None)"

text \<open>
  Inherited methods that leave their mark: each of the four on strings appends its
  number to the string, each of the two on lists appends its number as a last element.
\<close>

definition marking_methods :: tune_methods where
  "marking_methods =
     \<lparr>cleanup_chord_string = (\<lambda>s. s @ ''1''), remove_annotations = (\<lambda>s. s @ ''2''),
      fill_long_repeats = (\<lambda>s. s @ ''3''), fill_codas = (\<lambda>s. s @ ''4''),
      fill_single_double_repeats = (\<lambda>ms. ms @ [''5'']), fill_slashes = (\<lambda>ms. ms @ [''6''])\<rparr>"

section \<open>Notions used to state the properties\<close>

text \<open>\<open>sep.join(pieces)\<close>, the inverse of splitting.\<close>

fun join_with :: "'a list \<Rightarrow> 'a list list \<Rightarrow> 'a list" where
  "join_with sep [] = []"
| "join_with sep [x] = x"
| "join_with sep (x # y # ys) = x @ sep @ join_with sep (y # ys)"

text \<open>
  \<open>chord_converted converter annotation_type ob c\<close>: \<open>c\<close> has the time, duration and
  confidence of \<open>ob\<close>, and its value is what the converter returns for the value of \<open>ob\<close>.
\<close>

definition chord_converted ::
  "(string \<Rightarrow> exn + (string \<Rightarrow> exn + string)) \<Rightarrow> string
    \<Rightarrow> 'n observation \<Rightarrow> 'n observation \<Rightarrow> bool" where
  "chord_converted converter annotation_type ob c =
     (time c = time ob \<and> duration c = duration ob \<and> confidence c = confidence ob
      \<and> (case converter annotation_type of
            Inl e \<Rightarrow> False
          | Inr convert_chords \<Rightarrow> convert_chords (obs_value ob) = Inr (obs_value c)))"

text \<open>The observation that the key branch appends for \<open>ob\<close>.\<close>

definition key_converted :: "'n observation \<Rightarrow> 'n observation" where
  "key_converted ob =
     \<lparr>time = time ob, duration = duration ob, obs_value = convert_key (obs_value ob),
      confidence = confidence ob\<rparr>"



text \<open>The markers of the split, as strings.\<close>

definition measure_markers :: "string list" where
  "measure_markers = [''|'', ''LZ'', ''K'', ''Z'', ''{'', ''}'', ''['', '']'']"

section \<open>Properties of parsers.py\<close>

subsection \<open>Splitting\<close>

lemma re_split_songs_nonempty: "re_split_songs acc s \<noteq> []"
  by (induction acc s rule: re_split_songs.induct) auto

lemma join_with_Cons: "ys \<noteq> [] \<Longrightarrow> join_with sep (x # ys) = x @ sep @ join_with sep ys"
  by (cases ys) auto

lemma separator_found:
  "c = CHR ''='' \<Longrightarrow> take 2 cs = ''=='' \<Longrightarrow> c # cs = ''==='' @ drop 2 cs"
  by (metis append_Cons append_Nil append_take_drop_id)

lemma join_re_split_songs: "join_with ''==='' (re_split_songs acc s) = acc @ s"
proof (induction acc s rule: re_split_songs.induct)
  case (1 acc)
  then show ?case by simp
next
  case (2 acc c cs)
  show ?case
  proof (cases "c = CHR ''='' \<and> take 2 cs = ''==''")
    case True
    then have e: "c # cs = ''==='' @ drop 2 cs" using separator_found by blast
    have "re_split_songs acc (c # cs) = acc # re_split_songs [] (drop 2 cs)"
      using True by simp
    then have "join_with ''==='' (re_split_songs acc (c # cs))
        = acc @ ''==='' @ join_with ''==='' (re_split_songs [] (drop 2 cs))"
      by (simp only: join_with_Cons [OF re_split_songs_nonempty])
    also have "\<dots> = acc @ ''==='' @ drop 2 cs"
      using 2(1) True by simp
    finally show ?thesis using e by (simp only:)
  next
    case False
    then have "re_split_songs acc (c # cs) = re_split_songs (acc @ [c]) cs"
      by auto
    with 2(2) False show ?thesis by simp
  qed
qed

lemma only_bar_marker: "c \<notin> set ''KZ{}[]'' \<Longrightarrow> c \<in> set ''|KZ{}[]'' \<longleftrightarrow> c = CHR ''|''"
  by auto

lemma re_split_markers_length:
  "set s \<inter> set ''KZ{}[]'' = {} \<Longrightarrow>
   length (re_split_markers acc s) = count_list s (CHR ''|'') + 1"
proof (induction acc s rule: re_split_markers.induct)
  case (1 acc)
  then show ?case by simp
next
  case (2 acc c cs)
  from 2(4) have c: "c \<notin> set ''KZ{}[]''" and cs: "set cs \<inter> set ''KZ{}[]'' = {}"
    by auto
  have noZ: "take 1 cs \<noteq> ''Z''"
  proof
    assume "take 1 cs = ''Z''"
    then have "CHR ''Z'' \<in> set (take 1 cs)" by simp
    then have "CHR ''Z'' \<in> set cs" by (rule in_set_takeD)
    with cs show False by auto
  qed
  show ?case
  proof (cases "c = CHR ''|''")
    case True
    then have "re_split_markers acc (c # cs) = acc # re_split_markers [] cs" by simp
    moreover have "length (re_split_markers [] cs) = count_list cs (CHR ''|'') + 1"
      using 2(1) True cs by simp
    ultimately show ?thesis using True by simp
  next
    case False
    then have m: "c \<notin> set ''|KZ{}[]''" using c only_bar_marker by blast
    then have "re_split_markers acc (c # cs) = re_split_markers (acc @ [c]) cs"
      using noZ by (simp only: re_split_markers.simps if_False simp_thms)
    moreover have "length (re_split_markers (acc @ [c]) cs) = count_list cs (CHR ''|'') + 1"
      using 2(3) m noZ cs by blast
    ultimately show ?thesis using False by simp
  qed
qed

lemma split_measures_eq:
  "split_measures s = map strip (filter (\<lambda>m. strip m \<noteq> []) (re_split_markers [] s))"
proof -
  have "concat (map (\<lambda>m. if strip m \<noteq> [] then [strip m] else []) xs)
      = map strip (filter (\<lambda>m. strip m \<noteq> []) xs)" for xs
    by (induction xs) auto
  then show ?thesis by (simp add: split_measures_def)
qed

lemma split_measures_no_empty: "[] \<notin> set (split_measures s)"
  by (auto simp: split_measures_eq)

lemma length_filter_eq_iff: "length (filter P xs) = length xs \<longleftrightarrow> (\<forall>x\<in>set xs. P x)"
proof
  assume "length (filter P xs) = length xs"
  then show "\<forall>x\<in>set xs. P x"
    by (metis filter_id_conv length_filter_less less_irrefl)
next
  assume "\<forall>x\<in>set xs. P x"
  then show "length (filter P xs) = length xs" by simp
qed

lemma get_measures_plain: "get_measures plain_methods s = split_measures s"
  by (simp add: get_measures_def plain_methods_def)

subsection \<open>What the split and the strip compute\<close>

lemma no_Z_after:
  "set cs \<inter> set ''|KZ{}[]'' = {} \<Longrightarrow> take 1 cs \<noteq> ''Z''"
proof
  assume d: "set cs \<inter> set ''|KZ{}[]'' = {}" and "take 1 cs = ''Z''"
  then have "CHR ''Z'' \<in> set (take 1 cs)" by simp
  then have "CHR ''Z'' \<in> set cs" by (rule in_set_takeD)
  with d show False by auto
qed

lemma re_split_markers_plain:
  "set p \<inter> set ''|KZ{}[]'' = {} \<Longrightarrow> re_split_markers acc p = [acc @ p]"
proof (induction p arbitrary: acc)
  case Nil
  then show ?case by simp
next
  case (Cons c cs)
  from Cons.prems have c: "c \<notin> set ''|KZ{}[]''" and cs: "set cs \<inter> set ''|KZ{}[]'' = {}"
    by auto
  from c no_Z_after [OF cs] have
    "re_split_markers acc (c # cs) = re_split_markers (acc @ [c]) cs"
    by (simp only: re_split_markers.simps if_False simp_thms)
  with Cons.IH [OF cs, of "acc @ [c]"] show ?case by simp
qed

lemma re_split_markers_at_marker:
  "m \<in> set measure_markers \<Longrightarrow>
   re_split_markers acc (m @ rest) = acc # re_split_markers [] rest"
  by (auto simp: measure_markers_def)

lemma re_split_markers_step:
  "set p \<inter> set ''|KZ{}[]'' = {} \<Longrightarrow> m \<in> set measure_markers \<Longrightarrow>
   \<not> (m = ''Z'' \<and> p \<noteq> [] \<and> last p = CHR ''L'') \<Longrightarrow>
   re_split_markers acc (p @ m @ rest) = (acc @ p) # re_split_markers [] rest"
proof (induction p arbitrary: acc)
  case Nil
  then show ?case by (simp add: re_split_markers_at_marker)
next
  case (Cons c cs)
  from Cons.prems(1) have c: "c \<notin> set ''|KZ{}[]''" and cs: "set cs \<inter> set ''|KZ{}[]'' = {}"
    by auto
  have noLZ: "\<not> (c = CHR ''L'' \<and> take 1 (cs @ m @ rest) = ''Z'')"
  proof (cases cs)
    case Nil
    show ?thesis
    proof
      assume a: "c = CHR ''L'' \<and> take 1 (cs @ m @ rest) = ''Z''"
      with Nil have "take 1 (m @ rest) = ''Z''" by simp
      with Cons.prems(2) have "m = ''Z''" by (auto simp: measure_markers_def)
      with a Nil Cons.prems(3) show False by simp
    qed
  next
    case (Cons d ds)
    with cs have "d \<noteq> CHR ''Z''" by auto
    with Cons show ?thesis by simp
  qed
  have l: "\<not> (m = ''Z'' \<and> cs \<noteq> [] \<and> last cs = CHR ''L'')"
    using Cons.prems(3) by auto
  from c noLZ have
    "re_split_markers acc ((c # cs) @ m @ rest) = re_split_markers (acc @ [c]) (cs @ m @ rest)"
    by (simp only: append_Cons re_split_markers.simps if_False simp_thms)
  with Cons.IH [OF cs Cons.prems(2) l, of "acc @ [c]"] show ?case by simp
qed

lemma split_measures_Cons:
  "re_split_markers [] s = piece # pieces \<Longrightarrow>
   split_measures s
     = (if strip piece = [] then [] else [strip piece])
       @ concat (map (\<lambda>m. if strip m \<noteq> [] then [strip m] else []) pieces)"
  by (simp add: split_measures_def)

lemma split_measures_plain:
  "set p \<inter> set ''|KZ{}[]'' = {} \<Longrightarrow>
   split_measures p = (if strip p = [] then [] else [strip p])"
  by (simp add: split_measures_def re_split_markers_plain)

lemma split_measures_step:
  "set p \<inter> set ''|KZ{}[]'' = {} \<Longrightarrow> m \<in> set measure_markers \<Longrightarrow>
   \<not> (m = ''Z'' \<and> p \<noteq> [] \<and> last p = CHR ''L'') \<Longrightarrow>
   split_measures (p @ m @ rest)
     = (if strip p = [] then [] else [strip p]) @ split_measures rest"
  using re_split_markers_step [of p m "[]" rest]
  by (simp add: split_measures_def)

lemma last_dropWhile: "dropWhile P xs \<noteq> [] \<Longrightarrow> last (dropWhile P xs) = last xs"
  by (induction xs) (auto split: if_splits)

lemma strip_decomposition:
  "\<exists>ws1 ws2. s = ws1 @ strip s @ ws2 \<and> list_all is_space ws1 \<and> list_all is_space ws2"
proof -
  let ?t = "dropWhile is_space s"
  let ?ws1 = "takeWhile is_space s"
  let ?ws2 = "rev (takeWhile is_space (rev ?t))"
  have "rev (takeWhile is_space (rev ?t) @ dropWhile is_space (rev ?t)) = rev (rev ?t)"
    by (simp only: takeWhile_dropWhile_id)
  then have "rev (dropWhile is_space (rev ?t)) @ ?ws2 = ?t"
    by (simp only: rev_append rev_rev_ident)
  then have t: "?t = strip s @ ?ws2" by (simp only: strip_def)
  have "s = ?ws1 @ ?t" by simp
  with t have "s = ?ws1 @ strip s @ ?ws2" by simp
  moreover have "list_all is_space ?ws1"
    by (simp add: list_all_iff) (meson set_takeWhileD)
  moreover have "list_all is_space ?ws2"
    by (simp add: list_all_iff) (meson set_takeWhileD)
  ultimately show ?thesis by blast
qed

lemma strip_ends:
  assumes "strip s \<noteq> []"
  shows "\<not> is_space (hd (strip s))" and "\<not> is_space (last (strip s))"
proof -
  let ?t = "dropWhile is_space s"
  let ?u = "dropWhile is_space (rev ?t)"
  from assms have u: "?u \<noteq> []" by (simp add: strip_def)
  have t: "?t \<noteq> []"
  proof
    assume "?t = []"
    then have "?u = []" by (simp only: rev.simps dropWhile.simps)
    with u show False by (simp only: not_True_eq_False)
  qed
  have "last (strip s) = hd ?u" using u by (simp add: strip_def last_rev)
  moreover have "\<not> is_space (hd ?u)" using u by (rule hd_dropWhile)
  ultimately show "\<not> is_space (last (strip s))" by simp
  have "hd (strip s) = last ?u" using u by (simp add: strip_def hd_rev)
  also have "\<dots> = last (rev ?t)" using u by (rule last_dropWhile)
  also have "\<dots> = hd ?t" using t by (simp add: last_rev)
  finally have "hd (strip s) = hd ?t" .
  moreover have "\<not> is_space (hd ?t)" using t by (rule hd_dropWhile)
  ultimately show "\<not> is_space (hd (strip s))" by simp
qed

text \<open>
  C7. For every raw chord string, \<open>get_measures\<close> applies its stages in one fixed order, each
  on the result of the one before: the clean-up and the removal of annotations, the long
  repeats, the codas, the split on the measure markers with the blank pieces dropped, the
  single and double repeats, the slashes. The split is the one on the markers: a string
  without marker characters is one piece, and a piece ends at the first marker (\<open>LZ\<close> being
  one marker, so that the piece does not keep the \<open>L\<close>); each piece is stripped of the
  whitespace at its two ends and only of that; a piece that is blank gives no measure.
\<close>
theorem get_measures_stage_order:
  "get_measures cls chord_string =
     fill_slashes cls
       (fill_single_double_repeats cls
          (split_measures
             (fill_codas cls
                (fill_long_repeats cls
                   (remove_annotations cls (cleanup_chord_string cls chord_string))))))
   \<and> (set p \<inter> set ''|KZ{}[]'' = {}
        \<longrightarrow> split_measures p = (if strip p = [] then [] else [strip p]))
   \<and> (set p \<inter> set ''|KZ{}[]'' = {} \<and> m \<in> set measure_markers
        \<and> \<not> (m = ''Z'' \<and> p \<noteq> [] \<and> last p = CHR ''L'')
        \<longrightarrow> split_measures (p @ m @ rest)
             = (if strip p = [] then [] else [strip p]) @ split_measures rest)
   \<and> (\<exists>ws1 ws2. s = ws1 @ strip s @ ws2 \<and> list_all is_space ws1 \<and> list_all is_space ws2)
   \<and> (strip s \<noteq> [] \<longrightarrow> \<not> is_space (hd (strip s)) \<and> \<not> is_space (last (strip s)))
   \<and> [] \<notin> set (split_measures s)"
proof -
  have 1: "get_measures cls chord_string =
     fill_slashes cls
       (fill_single_double_repeats cls
          (split_measures
             (fill_codas cls
                (fill_long_repeats cls
                   (remove_annotations cls (cleanup_chord_string cls chord_string))))))"
    by (simp add: get_measures_def)
  have 2: "set p \<inter> set ''|KZ{}[]'' = {}
        \<longrightarrow> split_measures p = (if strip p = [] then [] else [strip p])"
    using split_measures_plain [of p] by blast
  have 3: "set p \<inter> set ''|KZ{}[]'' = {} \<and> m \<in> set measure_markers
        \<and> \<not> (m = ''Z'' \<and> p \<noteq> [] \<and> last p = CHR ''L'')
        \<longrightarrow> split_measures (p @ m @ rest)
             = (if strip p = [] then [] else [strip p]) @ split_measures rest"
    using split_measures_step [of p m rest] by blast
  note 4 = strip_decomposition [of s]
  have 5: "strip s \<noteq> [] \<longrightarrow> \<not> is_space (hd (strip s)) \<and> \<not> is_space (last (strip s))"
    using strip_ends [of s] by blast
  note 6 = split_measures_no_empty [of s]
  from 1 2 3 4 5 6 show ?thesis by blast
qed

theorem get_measures_stage_order_witness:
  "get_measures marking_methods ''A|B'' = [''A'', ''B1234'', ''5'', ''6'']
   \<and> set ''C '' \<inter> set ''|KZ{}[]'' = {}
   \<and> ''LZ'' \<in> set measure_markers
   \<and> split_measures (''C '' @ ''LZ'' @ '' G7 |'') = [''C'', ''G7'']
   \<and> strip '' G7 '' = ''G7''
   \<and> hd (strip '' G7 '') = CHR ''G''"
proof -
  have p: "set ''C '' \<inter> set ''|KZ{}[]'' = {}" by simp
  have m: "''LZ'' \<in> set measure_markers" by (simp add: measure_markers_def)
  have z: "\<not> (''LZ'' = ''Z'' \<and> ''C '' \<noteq> [] \<and> last ''C '' = CHR ''L'')" by simp
  have s: "strip '' G7 '' = ''G7''" "strip ''C '' = ''C''"
    by (simp_all add: strip_def is_space_def)
  have r: "split_measures '' G7 |'' = [''G7'']"
    by (simp add: split_measures_def strip_def is_space_def)
  have a: "split_measures ''A|B1234'' = [''A'', ''B1234'']"
    by (simp add: split_measures_def strip_def is_space_def)
  from get_measures_stage_order [where cls = marking_methods and chord_string = "''A|B''"
      and p = "''C ''" and m = "''LZ''" and rest = "'' G7 |''" and s = "'' G7 ''"]
    p m z s r a
  show ?thesis by (simp add: marking_methods_def)
qed

text \<open>
  C8, as stated: a string with \<open>N\<close> bar lines and no repeat shorthand gives exactly \<open>N + 1\<close>
  measures. It fails: \<open>C|G|\<close> has two bar lines, and the split of lines 26 and 27 gives the
  two measures \<open>C\<close> and \<open>G\<close>, since the blank piece after the last bar line is dropped.
\<close>
theorem bar_lines_counterexample:
  "count_list ''C|G|'' (CHR ''|'') = 2
   \<and> re_split_markers [] ''C|G|'' = [''C'', ''G'', []]
   \<and> split_measures ''C|G|'' = [''C'', ''G'']
   \<and> get_measures plain_methods ''C|G|'' = [''C'', ''G'']
   \<and> length (get_measures plain_methods ''C|G|'') \<noteq> count_list ''C|G|'' (CHR ''|'') + 1"
  by (simp add: get_measures_def plain_methods_def split_measures_def strip_def is_space_def)

text \<open>
  C8, amended. For a string whose only markers are \<open>N\<close> bar lines, the split has \<open>N + 1\<close>
  pieces and the measures are the pieces that are not blank, stripped: at most \<open>N + 1\<close>
  measures, exactly \<open>N + 1\<close> if and only if no piece is blank, and no measure is empty.
  These are the measures that \<open>get_measures\<close> returns when the inherited stages change
  nothing.
\<close>
theorem bar_lines_measure_count:
  assumes "set s \<inter> set ''KZ{}[]'' = {}"
  shows "length (re_split_markers [] s) = count_list s (CHR ''|'') + 1
       \<and> split_measures s = map strip (filter (\<lambda>m. strip m \<noteq> []) (re_split_markers [] s))
       \<and> length (split_measures s) \<le> count_list s (CHR ''|'') + 1
       \<and> (length (split_measures s) = count_list s (CHR ''|'') + 1
            \<longleftrightarrow> (\<forall>m\<in>set (re_split_markers [] s). strip m \<noteq> []))
       \<and> [] \<notin> set (split_measures s)
       \<and> get_measures plain_methods s = split_measures s"
proof -
  let ?pieces = "re_split_markers [] s"
  have n: "length ?pieces = count_list s (CHR ''|'') + 1"
    using assms by (rule re_split_markers_length)
  have m: "split_measures s = map strip (filter (\<lambda>m. strip m \<noteq> []) ?pieces)"
    by (rule split_measures_eq)
  have le: "length (split_measures s) \<le> count_list s (CHR ''|'') + 1"
    using n m length_filter_le [of "\<lambda>m. strip m \<noteq> []" ?pieces] by simp
  have eq: "length (split_measures s) = count_list s (CHR ''|'') + 1
            \<longleftrightarrow> (\<forall>m\<in>set ?pieces. strip m \<noteq> [])"
    using n m length_filter_eq_iff [of "\<lambda>m. strip m \<noteq> []" ?pieces] by simp
  have ne: "[] \<notin> set (split_measures s)"
    by (rule split_measures_no_empty)
  have g: "get_measures plain_methods s = split_measures s"
    by (rule get_measures_plain)
  from n m le eq ne g show ?thesis by blast
qed

theorem bar_lines_measure_count_witness:
  "set ''C | D |G'' \<inter> set ''KZ{}[]'' = {}
   \<and> count_list ''C | D |G'' (CHR ''|'') = 2
   \<and> re_split_markers [] ''C | D |G'' = [''C '', '' D '', ''G'']
   \<and> length (split_measures ''C | D |G'') = 3
   \<and> get_measures plain_methods ''C | D |G'' = [''C'', ''D'', ''G'']"
proof -
  have h: "set ''C | D |G'' \<inter> set ''KZ{}[]'' = {}" by simp
  have c: "count_list ''C | D |G'' (CHR ''|'') = 2" by simp
  have p: "re_split_markers [] ''C | D |G'' = [''C '', '' D '', ''G'']" by simp
  have s: "map strip (filter (\<lambda>m. strip m \<noteq> []) [''C '', '' D '', ''G'']) = [''C'', ''D'', ''G'']"
    by (simp add: strip_def is_space_def)
  show ?thesis
    using h c p bar_lines_measure_count [OF h] by (simp only: p s) simp
qed

subsection \<open>parse\_ireal\_url\<close>

lemma import_songs_eq:
  "import_songs ChoCoTune title songs (tunes, lg) =
     (tunes @ List.map_filter (\<lambda>song. case ChoCoTune song of Inr t \<Rightarrow> Some t | Inl err \<Rightarrow> None)
                 (filter (\<lambda>song. song \<noteq> []) songs),
      lg @ concat (map (\<lambda>song. if song = [] then []
                                else case ChoCoTune song of
                                       Inr t \<Rightarrow> [Info (''Parsed '' @ title t)]
                                     | Inl err \<Rightarrow> [CouldNotImport song err]) songs))"
  by (induction songs arbitrary: tunes lg) (auto split: sum.splits)

text \<open>
  C5. For every URL that \<open>parse_ireal_url\<close> accepts, the payload is split on \<open>===\<close> (joining
  the pieces with \<open>===\<close> gives the payload back), and the result is the list of the tunes of
  the non-empty pieces for which the constructor returns, in order. A piece for which it
  raises is logged and skipped; the call itself returns.
\<close>
theorem parse_ireal_url_skips_malformed:
  assumes "re_match_irealb (unquote url) = Some payload"
  shows "join_with ''==='' (re_split_songs [] payload) = payload
       \<and> fst (parse_ireal_url unquote ChoCoTune title url lg)
           = Inr (List.map_filter
                    (\<lambda>song. case ChoCoTune song of Inr t \<Rightarrow> Some t | Inl err \<Rightarrow> None)
                    (filter (\<lambda>song. song \<noteq> []) (re_split_songs [] payload)))
       \<and> snd (parse_ireal_url unquote ChoCoTune title url lg)
           = lg @ concat (map (\<lambda>song. if song = [] then []
                                       else case ChoCoTune song of
                                              Inr t \<Rightarrow> [Info (''Parsed '' @ title t)]
                                            | Inl err \<Rightarrow> [CouldNotImport song err])
                              (re_split_songs [] payload))"
  using assms join_re_split_songs [of "[]" payload]
  by (simp add: parse_ireal_url_def import_songs_eq Let_def)

theorem parse_ireal_url_skips_malformed_witness:
  "re_match_irealb ''irealb://Song A===bad===Song B'' = Some ''Song A===bad===Song B''
   \<and> re_split_songs [] ''Song A===bad===Song B'' = [''Song A'', ''bad'', ''Song B'']
   \<and> parse_ireal_url (\<lambda>s. s)
        (\<lambda>song. if song = ''bad'' then Inl (OtherException ''IndexError'' ''list index out of range'')
                 else Inr song)
        (\<lambda>tune. tune) ''irealb://Song A===bad===Song B'' []
       = (Inr [''Song A'', ''Song B''],
          [Info ''Parsed Song A'',
           CouldNotImport ''bad'' (OtherException ''IndexError'' ''list index out of range''),
           Info ''Parsed Song B''])"
proof -
  have h: "re_match_irealb ((\<lambda>s. s) ''irealb://Song A===bad===Song B'')
             = Some ''Song A===bad===Song B''"
    by (simp add: re_match_irealb_def)
  have s: "re_split_songs [] ''Song A===bad===Song B'' = [''Song A'', ''bad'', ''Song B'']"
    by simp
  show ?thesis
    using h s parse_ireal_url_skips_malformed [where unquote = "\<lambda>s. s"
        and url = "''irealb://Song A===bad===Song B''" and payload = "''Song A===bad===Song B''"
        and ChoCoTune = "\<lambda>song. if song = ''bad''
                                then Inl (OtherException ''IndexError'' ''list index out of range'')
                                else Inr song"
        and title = "\<lambda>tune. tune" and lg = "[]"]
    by (simp add: prod_eq_iff)
qed

text \<open>
  C9. For every input that, once unquoted, does not begin with \<open>irealb://\<close>,
  \<open>parse_ireal_url\<close> raises \<open>RuntimeError\<close>: it returns no list and logs nothing.
\<close>
theorem parse_ireal_url_invalid_scheme:
  assumes "\<not> prefix ''irealb://'' (unquote url)"
  shows "parse_ireal_url unquote ChoCoTune title url lg
           = (Inl (RuntimeError ''Provided string is not a valid iReal url!''), lg)"
  using assms by (simp add: parse_ireal_url_def re_match_irealb_def)

theorem parse_ireal_url_invalid_scheme_witness:
  "\<not> prefix ''irealb://'' ''http://example.org/tune''
   \<and> parse_ireal_url (\<lambda>s. s) (\<lambda>song. Inr song) (\<lambda>tune. tune) ''http://example.org/tune'' []
       = (Inl (RuntimeError ''Provided string is not a valid iReal url!''), [])"
proof -
  have h: "\<not> prefix ''irealb://'' ((\<lambda>s. s) ''http://example.org/tune'')" by simp
  show ?thesis
    using h parse_ireal_url_invalid_scheme [where unquote = "\<lambda>s. s"
        and url = "''http://example.org/tune''" and ChoCoTune = "\<lambda>song. Inr song"
        and title = "\<lambda>tune. tune" and lg = "[]"]
    by simp
qed

section \<open>Properties of converters/converter\_instances.py\<close>

subsection \<open>The loops of parse\_jams\<close>

lemma convert_chord_observations_Inr:
  "convert_chord_observations converter annotation_type observations (ca, md, lg)
     = (Inr (ca', md'), lg') \<Longrightarrow>
   namespace ca' = namespace ca
   \<and> (\<exists>cs. data ca' = data ca @ cs
           \<and> list_all2 (chord_converted converter annotation_type) observations cs)"
proof (induction observations arbitrary: ca md lg)
  case Nil
  then show ?case by simp
next
  case (Cons ob rest)
  from Cons.prems obtain convert_chords v where
    c: "converter annotation_type = Inr convert_chords"
    and v: "convert_chords (obs_value ob) = Inr v"
    and r: "convert_chord_observations converter annotation_type rest
              (ann_append ca (time ob) (duration ob) v (confidence ob),
               dict_incr (obs_value ob, v) md,
               lg @ [Info (''Converting chord: '' @ obs_value ob)]) = (Inr (ca', md'), lg')"
    by (auto simp: Let_def split: sum.splits)
  let ?c = "\<lparr>time = time ob, duration = duration ob, obs_value = v, confidence = confidence ob\<rparr>"
  from Cons.IH [OF r] obtain cs where
    n: "namespace ca' = namespace (ann_append ca (time ob) (duration ob) v (confidence ob))"
    and d: "data ca' = data (ann_append ca (time ob) (duration ob) v (confidence ob)) @ cs"
    and l: "list_all2 (chord_converted converter annotation_type) rest cs"
    by blast
  have "chord_converted converter annotation_type ob ?c"
    using c v by (simp add: chord_converted_def)
  with l have "list_all2 (chord_converted converter annotation_type) (ob # rest) (?c # cs)"
    by simp
  moreover have "data ca' = data ca @ ?c # cs"
    using d by (simp add: ann_append_def)
  moreover have "namespace ca' = namespace ca"
    using n by (simp add: ann_append_def)
  ultimately show ?case by blast
qed

lemma convert_key_observations_eq:
  "convert_key_observations observations ca
     = ca\<lparr>data := data ca @ map key_converted observations\<rparr>"
  by (induction observations arbitrary: ca)
     (simp_all add: Let_def ann_append_def key_converted_def)

lemma convert_key_observations_new:
  "convert_key_observations observations (new_annotation ''key_mode'')
     = \<lparr>namespace = ''key_mode'', data = map key_converted observations\<rparr>"
  by (simp add: convert_key_observations_eq new_annotation_def)

lemma convert_annotations_Inr:
  "convert_annotations namespaces converter annotation_type anns (all_annotations, md, lg)
     = (Inr (all', md'), lg') \<Longrightarrow>
   \<exists>new. all' = all_annotations @ new
     \<and> list_all2
         (\<lambda>a ca. if namespace a \<in> set namespaces
                  then namespace ca = ''chord_harte''
                       \<and> list_all2 (chord_converted converter annotation_type) (data a) (data ca)
                  else ca = \<lparr>namespace = ''key_mode'', data = map key_converted (data a)\<rparr>)
         (filter (\<lambda>a. namespace a \<in> set namespaces \<or> namespace a = ''key_mode'') anns) new"
proof (induction anns arbitrary: all_annotations md lg)
  case Nil
  then show ?case by simp
next
  case (Cons a rest)
  let ?R = "\<lambda>a ca. if namespace a \<in> set namespaces
                  then namespace ca = ''chord_harte''
                       \<and> list_all2 (chord_converted converter annotation_type) (data a) (data ca)
                  else ca = \<lparr>namespace = ''key_mode'', data = map key_converted (data a)\<rparr>"
  let ?F = "filter (\<lambda>a. namespace a \<in> set namespaces \<or> namespace a = ''key_mode'')"
  show ?case
  proof (cases "namespace a \<in> set namespaces")
    case True
    with Cons.prems obtain ca md1 lg1 where
      o: "convert_chord_observations converter annotation_type (data a)
            (new_annotation ''chord_harte'', md, lg) = (Inr (ca, md1), lg1)"
      and r: "convert_annotations namespaces converter annotation_type rest
                (all_annotations @ [ca], md1, lg1) = (Inr (all', md'), lg')"
      by (auto split: sum.splits prod.splits)
    from convert_chord_observations_Inr [OF o]
    have ca: "namespace ca = ''chord_harte''"
      "list_all2 (chord_converted converter annotation_type) (data a) (data ca)"
      by (auto simp: new_annotation_def)
    from Cons.IH [OF r] obtain new where
      n: "all' = (all_annotations @ [ca]) @ new" and l: "list_all2 ?R (?F rest) new"
      by blast
    have "list_all2 ?R (?F (a # rest)) (ca # new)"
      using True ca l by simp
    moreover have "all' = all_annotations @ ca # new" using n by simp
    ultimately show ?thesis by blast
  next
    case False
    show ?thesis
    proof (cases "namespace a = ''key_mode''")
      case True
      let ?ca = "\<lparr>namespace = ''key_mode'', data = map key_converted (data a)\<rparr>"
      from Cons.prems False True have
        r: "convert_annotations namespaces converter annotation_type rest
              (all_annotations @ [?ca], md, lg) = (Inr (all', md'), lg')"
        by (simp add: convert_key_observations_new)
      from Cons.IH [OF r] obtain new where
        n: "all' = (all_annotations @ [?ca]) @ new" and l: "list_all2 ?R (?F rest) new"
        by blast
      have "list_all2 ?R (?F (a # rest)) (?ca # new)"
        using False True l by simp
      moreover have "all' = all_annotations @ ?ca # new" using n by simp
      ultimately show ?thesis by blast
    next
      case notkey: False
      from Cons.prems False notkey have
        r: "convert_annotations namespaces converter annotation_type rest
              (all_annotations, md, lg) = (Inr (all', md'), lg')"
        by simp
      from Cons.IH [OF r] obtain new where
        n: "all' = all_annotations @ new" and l: "list_all2 ?R (?F rest) new"
        by blast
      have "list_all2 ?R (?F (a # rest)) new"
        using False notkey l by simp
      with n show ?thesis by blast
    qed
  qed
qed

lemma list_all2_find: "list_all2 P xs ys \<Longrightarrow> x \<in> set xs \<Longrightarrow> \<exists>y\<in>set ys. P x y"
  by (induction rule: list_all2_induct) auto

lemma build_jam_Inr:
  "build_jam namespaces converter annotation_type replace original_jams lg
     = (Inr (jam, md), lg') \<Longrightarrow>
   \<exists>all_annotations.
     convert_annotations namespaces converter annotation_type (annotations original_jams)
       ([], [], lg) = (Inr (all_annotations, md), lg')
     \<and> jam = \<lparr>file_metadata = file_metadata original_jams, sandbox = sandbox original_jams,
              annotations = merge_annotations replace (annotations original_jams)
                              all_annotations\<rparr>"
  by (auto simp: build_jam_def Let_def split: sum.splits prod.splits)

lemma set_merge_annotations:
  "set (merge_annotations replace originals all_annotations)
     = (if replace then {} else {(Original, oa) | oa. oa \<in> set originals \<and> namespace oa \<noteq> ''key_mode''})
       \<union> {(Converted, a) | a. a \<in> set all_annotations}"
  by (auto simp: merge_annotations_def)

lemmas example_defs =
  example_converter_def obs_def chord_a_def key_a_def chord_b_def chord_c_def file_a_def
  file_b_def file_c_def
  new_annotation_def ann_append_def dict_incr_def merge_annotations_def build_jam_def
  convert_key_def

lemma build_a_keep:
  "build_jam [''chord'', ''chord_harte''] example_converter ''leadsheet'' False file_a []
     = (Inr (\<lparr>file_metadata = ''meta a'', sandbox = ''sandbox a'',
              annotations =
                [(Original, chord_a),
                 (Converted, \<lparr>namespace = ''chord_harte'',
                               data = [obs 0 2 ''C:maj'', obs 2 2 ''C:maj'']\<rparr>),
                 (Converted, \<lparr>namespace = ''key_mode'', data = [obs 0 4 ''G:minor'']\<rparr>)]\<rparr>,
             [((''C'', ''C:maj''), 2)]),
        [Info ''Converting chord: C'', Info ''Converting chord: C''])"
  by (simp add: example_defs)

lemma build_a_replace:
  "build_jam [''chord'', ''chord_harte''] example_converter ''leadsheet'' True file_a []
     = (Inr (\<lparr>file_metadata = ''meta a'', sandbox = ''sandbox a'',
              annotations =
                [(Converted, \<lparr>namespace = ''chord_harte'',
                               data = [obs 0 2 ''C:maj'', obs 2 2 ''C:maj'']\<rparr>),
                 (Converted, \<lparr>namespace = ''key_mode'', data = [obs 0 4 ''G:minor'']\<rparr>)]\<rparr>,
             [((''C'', ''C:maj''), 2)]),
        [Info ''Converting chord: C'', Info ''Converting chord: C''])"
  by (simp add: example_defs)

text \<open>
  C3, as stated: without \<open>replace\<close>, every original annotation, chord and key alike, is in
  the output next to the converted ones. It fails for keys: from a file with a chord and a
  key annotation the output holds the original chord annotation and the two converted
  annotations, and not the original key annotation.
\<close>
theorem originals_kept_counterexample:
  "key_a \<in> set (annotations file_a)
   \<and> build_jam [''chord'', ''chord_harte''] example_converter ''leadsheet'' False file_a []
     = (Inr (\<lparr>file_metadata = ''meta a'', sandbox = ''sandbox a'',
              annotations =
                [(Original, chord_a),
                 (Converted, \<lparr>namespace = ''chord_harte'',
                               data = [obs 0 2 ''C:maj'', obs 2 2 ''C:maj'']\<rparr>),
                 (Converted, \<lparr>namespace = ''key_mode'', data = [obs 0 4 ''G:minor'']\<rparr>)]\<rparr>,
             [((''C'', ''C:maj''), 2)]),
        [Info ''Converting chord: C'', Info ''Converting chord: C''])
   \<and> (Original, key_a)
       \<notin> set [(Original, chord_a),
                (Converted, \<lparr>namespace = ''chord_harte'',
                              data = [obs 0 2 ''C:maj'', obs 2 2 ''C:maj'']\<rparr>),
                (Converted, \<lparr>namespace = ''key_mode'', data = [obs 0 4 ''G:minor'']\<rparr>)]"
  by (simp add: example_defs)

text \<open>
  C3, amended. The output container holds first the original annotations, unless
  \<open>replace\<close> is set and except those of namespace \<open>key_mode\<close>, then the converted ones.
  So with \<open>replace\<close> every entry is a converted annotation; without it an original
  annotation is in the output if and only if its namespace is not \<open>key_mode\<close>; an original
  \<open>key_mode\<close> annotation is in the output in neither case.
\<close>
theorem merge_policy:
  assumes "build_jam namespaces converter annotation_type replace original_jams lg
             = (Inr (jam, md), lg')"
  shows "(\<exists>all_annotations.
            fst (convert_annotations namespaces converter annotation_type
                   (annotations original_jams) ([], [], lg)) = Inr (all_annotations, md)
            \<and> annotations jam
                = (if replace then []
                   else [(Original, oa). oa \<leftarrow> annotations original_jams,
                                         namespace oa \<noteq> ''key_mode''])
                  @ [(Converted, a). a \<leftarrow> all_annotations])
       \<and> (replace \<longrightarrow> (\<forall>e\<in>set (annotations jam). fst e = Converted))
       \<and> (\<not> replace \<longrightarrow>
            (\<forall>oa\<in>set (annotations original_jams).
               (Original, oa) \<in> set (annotations jam) \<longleftrightarrow> namespace oa \<noteq> ''key_mode''))
       \<and> (\<forall>oa. namespace oa = ''key_mode'' \<longrightarrow> (Original, oa) \<notin> set (annotations jam))"
proof -
  from build_jam_Inr [OF assms] obtain all_annotations where
    c: "convert_annotations namespaces converter annotation_type (annotations original_jams)
          ([], [], lg) = (Inr (all_annotations, md), lg')"
    and j: "annotations jam
              = merge_annotations replace (annotations original_jams) all_annotations"
    by auto
  have 1: "\<exists>all_annotations.
            fst (convert_annotations namespaces converter annotation_type
                   (annotations original_jams) ([], [], lg)) = Inr (all_annotations, md)
            \<and> annotations jam
                = (if replace then []
                   else [(Original, oa). oa \<leftarrow> annotations original_jams,
                                         namespace oa \<noteq> ''key_mode''])
                  @ [(Converted, a). a \<leftarrow> all_annotations]"
    using c j by (auto simp: merge_annotations_def)
  have s: "set (annotations jam)
             = (if replace then {}
                else {(Original, oa) | oa. oa \<in> set (annotations original_jams)
                                          \<and> namespace oa \<noteq> ''key_mode''})
               \<union> {(Converted, a) | a. a \<in> set all_annotations}"
    by (simp only: j set_merge_annotations)
  have 2: "replace \<longrightarrow> (\<forall>e\<in>set (annotations jam). fst e = Converted)"
    using s by auto
  have 3: "\<not> replace \<longrightarrow>
            (\<forall>oa\<in>set (annotations original_jams).
               (Original, oa) \<in> set (annotations jam) \<longleftrightarrow> namespace oa \<noteq> ''key_mode'')"
    using s by auto
  have 4: "\<forall>oa. namespace oa = ''key_mode'' \<longrightarrow> (Original, oa) \<notin> set (annotations jam)"
    using s by auto
  from 1 2 3 4 show ?thesis by blast
qed

theorem merge_policy_witness:
  "build_jam [''chord'', ''chord_harte''] example_converter ''leadsheet'' False file_a []
     = (Inr (\<lparr>file_metadata = ''meta a'', sandbox = ''sandbox a'',
              annotations =
                [(Original, chord_a),
                 (Converted, \<lparr>namespace = ''chord_harte'',
                               data = [obs 0 2 ''C:maj'', obs 2 2 ''C:maj'']\<rparr>),
                 (Converted, \<lparr>namespace = ''key_mode'', data = [obs 0 4 ''G:minor'']\<rparr>)]\<rparr>,
             [((''C'', ''C:maj''), 2)]),
        [Info ''Converting chord: C'', Info ''Converting chord: C''])
   \<and> (Original, chord_a)
       \<in> set [(Original, chord_a),
                (Converted, \<lparr>namespace = ''chord_harte'',
                              data = [obs 0 2 ''C:maj'', obs 2 2 ''C:maj'']\<rparr>),
                (Converted, \<lparr>namespace = ''key_mode'', data = [obs 0 4 ''G:minor'']\<rparr>)]
   \<and> (Original, key_a)
       \<notin> set [(Original, chord_a),
                (Converted, \<lparr>namespace = ''chord_harte'',
                              data = [obs 0 2 ''C:maj'', obs 2 2 ''C:maj'']\<rparr>),
                (Converted, \<lparr>namespace = ''key_mode'', data = [obs 0 4 ''G:minor'']\<rparr>)]"
proof -
  note h = build_a_keep
  have k: "namespace key_a = ''key_mode''" by (simp add: key_a_def)
  have c: "chord_a \<in> set (annotations file_a)" "namespace chord_a \<noteq> ''key_mode''"
    by (simp_all add: file_a_def chord_a_def)
  from merge_policy [OF h] k c show ?thesis
    using h by simp
qed

text \<open>
  C4. For every chord annotation of the input, the output holds a converted annotation of
  namespace \<open>chord_harte\<close> with one new observation for each original observation, in
  order, whose time, duration and confidence are those of the original and whose value is
  the converted chord. The original annotation is not changed: without \<open>replace\<close> it is in
  the output as it was loaded.
\<close>
theorem chord_observations_converted:
  assumes "build_jam namespaces converter annotation_type replace original_jams lg
             = (Inr (jam, md), lg')"
    and "a \<in> set (annotations original_jams)"
    and "namespace a \<in> set namespaces"
  shows "(\<exists>ca. (Converted, ca) \<in> set (annotations jam)
              \<and> namespace ca = ''chord_harte''
              \<and> list_all2 (chord_converted converter annotation_type) (data a) (data ca))
       \<and> (replace = False \<and> namespace a \<noteq> ''key_mode''
            \<longrightarrow> (Original, a) \<in> set (annotations jam))"
proof -
  from build_jam_Inr [OF assms(1)] obtain all_annotations where
    c: "convert_annotations namespaces converter annotation_type (annotations original_jams)
          ([], [], lg) = (Inr (all_annotations, md), lg')"
    and j: "annotations jam
              = merge_annotations replace (annotations original_jams) all_annotations"
    by auto
  let ?R = "\<lambda>a ca. if namespace a \<in> set namespaces
                  then namespace ca = ''chord_harte''
                       \<and> list_all2 (chord_converted converter annotation_type) (data a) (data ca)
                  else ca = \<lparr>namespace = ''key_mode'', data = map key_converted (data a)\<rparr>"
  let ?F = "filter (\<lambda>a. namespace a \<in> set namespaces \<or> namespace a = ''key_mode'')"
  from convert_annotations_Inr [OF c] have l: "list_all2 ?R (?F (annotations original_jams)) all_annotations"
    by simp
  have "a \<in> set (?F (annotations original_jams))" using assms(2,3) by simp
  from list_all2_find [OF l this] obtain ca where
    ca: "ca \<in> set all_annotations" "?R a ca" by blast
  have s: "set (annotations jam)
             = (if replace then {}
                else {(Original, oa) | oa. oa \<in> set (annotations original_jams)
                                          \<and> namespace oa \<noteq> ''key_mode''})
               \<union> {(Converted, a) | a. a \<in> set all_annotations}"
    by (simp only: j set_merge_annotations)
  have 1: "\<exists>ca. (Converted, ca) \<in> set (annotations jam)
              \<and> namespace ca = ''chord_harte''
              \<and> list_all2 (chord_converted converter annotation_type) (data a) (data ca)"
    using ca assms(3) s by auto
  have 2: "replace = False \<and> namespace a \<noteq> ''key_mode''
            \<longrightarrow> (Original, a) \<in> set (annotations jam)"
    using s assms(2) by auto
  from 1 2 show ?thesis by blast
qed

theorem chord_observations_converted_witness:
  "build_jam [''chord'', ''chord_harte''] example_converter ''leadsheet'' False file_a []
     = (Inr (\<lparr>file_metadata = ''meta a'', sandbox = ''sandbox a'',
              annotations =
                [(Original, chord_a),
                 (Converted, \<lparr>namespace = ''chord_harte'',
                               data = [obs 0 2 ''C:maj'', obs 2 2 ''C:maj'']\<rparr>),
                 (Converted, \<lparr>namespace = ''key_mode'', data = [obs 0 4 ''G:minor'']\<rparr>)]\<rparr>,
             [((''C'', ''C:maj''), 2)]),
        [Info ''Converting chord: C'', Info ''Converting chord: C''])
   \<and> chord_a \<in> set (annotations file_a)
   \<and> namespace chord_a \<in> set [''chord'', ''chord_harte'']
   \<and> (\<exists>ca. (Converted, ca)
              \<in> set [(Original, chord_a),
                       (Converted, \<lparr>namespace = ''chord_harte'',
                                     data = [obs 0 2 ''C:maj'', obs 2 2 ''C:maj'']\<rparr>),
                       (Converted, \<lparr>namespace = ''key_mode'', data = [obs 0 4 ''G:minor'']\<rparr>)]
            \<and> namespace ca = ''chord_harte''
            \<and> list_all2 (chord_converted example_converter ''leadsheet'') (data chord_a) (data ca))
   \<and> (Original, chord_a)
       \<in> set [(Original, chord_a),
                (Converted, \<lparr>namespace = ''chord_harte'',
                              data = [obs 0 2 ''C:maj'', obs 2 2 ''C:maj'']\<rparr>),
                (Converted, \<lparr>namespace = ''key_mode'', data = [obs 0 4 ''G:minor'']\<rparr>)]"
proof -
  note h = build_a_keep
  have a: "chord_a \<in> set (annotations file_a)" by (simp add: file_a_def)
  have n: "namespace chord_a \<in> set [''chord'', ''chord_harte'']" by (simp add: chord_a_def)
  have k: "namespace chord_a \<noteq> ''key_mode''" by (simp add: chord_a_def)
  from chord_observations_converted [OF h a n] k a n h show ?thesis
    by (simp del: set_simps list.set)
qed

text \<open>
  C10. For every \<open>key_mode\<close> annotation of the input (the namespace not being one of the
  chord namespaces), the output holds a converted \<open>key_mode\<close> annotation with one new
  observation for each original one, with the same time, duration and confidence and with
  the value in which every \<open>-\<close> became \<open>:\<close>, then every \<open>maj\<close> became \<open>major\<close>, then every
  \<open>min\<close> became \<open>minor\<close>. \<open>G-min\<close> becomes \<open>G:minor\<close>, and \<open>G:minor\<close> becomes \<open>G:minoror\<close>.
\<close>
theorem key_observations_converted:
  assumes "build_jam namespaces converter annotation_type replace original_jams lg
             = (Inr (jam, md), lg')"
    and "a \<in> set (annotations original_jams)"
    and "namespace a = ''key_mode''"
    and "''key_mode'' \<notin> set namespaces"
  shows "(Converted,
          \<lparr>namespace = ''key_mode'',
           data = map (\<lambda>ob. \<lparr>time = time ob, duration = duration ob,
                              obs_value = convert_key (obs_value ob),
                              confidence = confidence ob\<rparr>) (data a)\<rparr>)
           \<in> set (annotations jam)
       \<and> convert_key v
           = str_replace ''min'' ''minor''
               (str_replace ''maj'' ''major'' (str_replace ''-'' '':'' v))
       \<and> convert_key ''G-min'' = ''G:minor''
       \<and> convert_key ''G:minor'' = ''G:minoror''"
proof -
  from build_jam_Inr [OF assms(1)] obtain all_annotations where
    c: "convert_annotations namespaces converter annotation_type (annotations original_jams)
          ([], [], lg) = (Inr (all_annotations, md), lg')"
    and j: "annotations jam
              = merge_annotations replace (annotations original_jams) all_annotations"
    by auto
  let ?R = "\<lambda>a ca. if namespace a \<in> set namespaces
                  then namespace ca = ''chord_harte''
                       \<and> list_all2 (chord_converted converter annotation_type) (data a) (data ca)
                  else ca = \<lparr>namespace = ''key_mode'', data = map key_converted (data a)\<rparr>"
  let ?F = "filter (\<lambda>a. namespace a \<in> set namespaces \<or> namespace a = ''key_mode'')"
  from convert_annotations_Inr [OF c] have l: "list_all2 ?R (?F (annotations original_jams)) all_annotations"
    by simp
  have "a \<in> set (?F (annotations original_jams))" using assms(2,3) by simp
  from list_all2_find [OF l this] obtain ca where
    ca: "ca \<in> set all_annotations" "?R a ca" by blast
  have "ca = \<lparr>namespace = ''key_mode'', data = map key_converted (data a)\<rparr>"
    using ca(2) assms(3,4) by simp
  then have m: "(Converted, \<lparr>namespace = ''key_mode'', data = map key_converted (data a)\<rparr>)
                  \<in> set (annotations jam)"
    using ca(1) j by (simp add: set_merge_annotations)
  have kc: "map (\<lambda>ob. \<lparr>time = time ob, duration = duration ob,
                         obs_value = convert_key (obs_value ob),
                         confidence = confidence ob\<rparr>) (data a)
              = map key_converted (data a)"
    by (simp add: key_converted_def)
  have 1: "(Converted,
          \<lparr>namespace = ''key_mode'',
           data = map (\<lambda>ob. \<lparr>time = time ob, duration = duration ob,
                              obs_value = convert_key (obs_value ob),
                              confidence = confidence ob\<rparr>) (data a)\<rparr>)
           \<in> set (annotations jam)"
    using m by (simp only: kc)
  have 2: "convert_key v
           = str_replace ''min'' ''minor''
               (str_replace ''maj'' ''major'' (str_replace ''-'' '':'' v))"
    by (simp add: convert_key_def)
  have 3: "convert_key ''G-min'' = ''G:minor''" by (simp add: convert_key_def)
  have 4: "convert_key ''G:minor'' = ''G:minoror''" by (simp add: convert_key_def)
  from 1 2 3 4 show ?thesis by blast
qed

theorem key_observations_converted_witness:
  "build_jam [''chord'', ''chord_harte''] example_converter ''leadsheet'' True file_a []
     = (Inr (\<lparr>file_metadata = ''meta a'', sandbox = ''sandbox a'',
              annotations =
                [(Converted, \<lparr>namespace = ''chord_harte'',
                               data = [obs 0 2 ''C:maj'', obs 2 2 ''C:maj'']\<rparr>),
                 (Converted, \<lparr>namespace = ''key_mode'', data = [obs 0 4 ''G:minor'']\<rparr>)]\<rparr>,
             [((''C'', ''C:maj''), 2)]),
        [Info ''Converting chord: C'', Info ''Converting chord: C''])
   \<and> key_a \<in> set (annotations file_a)
   \<and> namespace key_a = ''key_mode''
   \<and> ''key_mode'' \<notin> set [''chord'', ''chord_harte'']
   \<and> (Converted, \<lparr>namespace = ''key_mode'', data = [obs 0 4 ''G:minor'']\<rparr>)
       \<in> set [(Converted, \<lparr>namespace = ''chord_harte'',
                              data = [obs 0 2 ''C:maj'', obs 2 2 ''C:maj'']\<rparr>),
                (Converted, \<lparr>namespace = ''key_mode'', data = [obs 0 4 ''G:minor'']\<rparr>)]"
proof -
  note h = build_a_replace
  have a: "key_a \<in> set (annotations file_a)" by (simp add: file_a_def)
  have n: "namespace key_a = ''key_mode''" by (simp add: key_a_def)
  have k: "''key_mode'' \<notin> set [''chord'', ''chord_harte'']" by simp
  from key_observations_converted [OF h a n k] a n k h show ?thesis
    by simp
qed

lemma parse_jams_saves_built_jam:
  assumes "parse_jams E jams_path output_path annotation_type filename replace w
             = (Inr (Some md), w')"
  shows "\<exists>original_jams jam lg.
           load E jams_path = Inr original_jams
           \<and> build_jam (CHORD_NAMESPACES E) (ChordConverter E) annotation_type replace
                original_jams (logs w) = (Inr (jam, md), lg)
           \<and> saved w' = saved w @ [(path_join output_path filename, jam)]"
  using assms
  by (auto simp: parse_jams_def split: sum.splits prod.splits option.splits exn.splits)

subsection \<open>Failures of the converter\<close>










lemmas run_defs =
  example_defs example_env_def empty_world_def save_ok_def save_a_denied_def parse_jams_def
  parse_jams_dataset_def dict_update_def path_join_def metadata_table_def none_not_iterable_def




subsection \<open>parse\_jams\_dataset\<close>

lemma dict_update_Cons:
  "dict_update md ((key, v) # other) = dict_update (AList.update key v md) other"
  by (simp add: dict_update_def)

lemma dict_update_lookup:
  "distinct (map fst other) \<Longrightarrow>
   map_of (dict_update md other) key
     = (case map_of other key of None \<Rightarrow> map_of md key | Some n \<Rightarrow> Some n)"
proof (induction other arbitrary: md)
  case Nil
  then show ?case by (simp add: dict_update_def)
next
  case (Cons p other)
  obtain k v where p: "p = (k, v)" by (cases p) auto
  from Cons.prems p have k: "map_of other k = None" and d: "distinct (map fst other)"
    by (auto simp: map_of_eq_None_iff)
  show ?case
    using Cons.IH [OF d, of "AList.update k v md"] k
    by (auto simp: p dict_update_Cons update_conv' split: option.splits)
qed

lemma dict_update_distinct:
  "distinct (map fst md) \<Longrightarrow> distinct (map fst (dict_update md other))"
proof (induction other arbitrary: md)
  case Nil
  then show ?case by (simp add: dict_update_def)
next
  case (Cons p other)
  obtain k v where p: "p = (k, v)" by (cases p) auto
  show ?case
    using Cons.IH [of "AList.update k v md"] Cons.prems
    by (simp add: p dict_update_Cons distinct_update)
qed

subsection \<open>What holds of the batch run in general\<close>

text \<open>The keys of the accumulated metadata stay distinct, whatever the files contribute.\<close>

lemma convert_files_keys_distinct:
  "distinct (map fst metadata) \<Longrightarrow>
   convert_files E jams_path converted_jams_dir annotation_type replace files (metadata, w)
     = (Inr metadata', w') \<Longrightarrow>
   distinct (map fst metadata')"
proof (induction files arbitrary: metadata w)
  case Nil
  then show ?case by simp
next
  case (Cons f files)
  show ?case
  proof (cases "isfile E (path_join jams_path f)")
    case True
    let ?w = "w\<lparr>logs := logs w @
                 [Info ([CHR 0x0A] @ ''Converting observation for file: '' @ f
                        @ [CHR 0x0A])]\<rparr>"
    from Cons.prems(2) True obtain file_meta w1 where
      "parse_jams E (path_join jams_path f) converted_jams_dir annotation_type f replace ?w
         = (Inr (Some file_meta), w1)"
      and r: "convert_files E jams_path converted_jams_dir annotation_type replace files
           (dict_update metadata file_meta, w1) = (Inr metadata', w')"
      by (auto simp: Let_def split: sum.splits prod.splits option.splits)
    from Cons.IH [OF dict_update_distinct [OF Cons.prems(1)] r] show ?thesis .
  next
    case False
    with Cons.prems(2) have
      "convert_files E jams_path converted_jams_dir annotation_type replace files (metadata, w)
         = (Inr metadata', w')"
      by simp
    from Cons.IH [OF Cons.prems(1) this] show ?thesis .
  qed
qed

text \<open>
  The handler of \<open>SchemaError\<close>, as it is written: were \<open>save\<close> to raise \<open>SchemaError\<close>,
  \<open>parse_jams\<close> would log and return \<open>None\<close>, and a \<open>None\<close> ends the loop over the files
  with a \<open>TypeError\<close>, whatever files remain. (With \<open>strict=False\<close> the library warns
  instead of raising, so this handler is not what a failing save meets.)
\<close>

lemma parse_jams_schema_error:
  "load E jams_path = Inr original_jams \<Longrightarrow>
   build_jam (CHORD_NAMESPACES E) (ChordConverter E) annotation_type replace original_jams
     (logs w) = (Inr (jam, md), lg) \<Longrightarrow>
   save E (path_join output_path filename) jam = Some (SchemaError jes) \<Longrightarrow>
   parse_jams E jams_path output_path annotation_type filename replace w
     = (Inr None, w\<lparr>logs := lg @ [CouldNotSave jams_path (SchemaError jes)]\<rparr>)"
  by (simp add: parse_jams_def)

lemma convert_files_None_aborts:
  "isfile E (path_join jams_path file) \<Longrightarrow>
   parse_jams E (path_join jams_path file) converted_jams_dir annotation_type file replace
     (w\<lparr>logs := logs w @
          [Info ([CHR 0x0A] @ ''Converting observation for file: '' @ file @ [CHR 0x0A])]\<rparr>)
     = (Inr None, w') \<Longrightarrow>
   convert_files E jams_path converted_jams_dir annotation_type replace (file # files)
     (metadata, w) = (Inl (TypeError none_not_iterable), w')"
  by (simp add: Let_def)

text \<open>
  Any other exception of \<open>save\<close>, such as an \<open>OSError\<close>, is caught nowhere: \<open>parse_jams\<close>
  raises it without logging, and the loop over the files and \<open>parse_jams_dataset\<close> raise it
  in turn, whatever files remain and before any table is written.
\<close>

lemma parse_jams_save_raises:
  "load E jams_path = Inr original_jams \<Longrightarrow>
   build_jam (CHORD_NAMESPACES E) (ChordConverter E) annotation_type replace original_jams
     (logs w) = (Inr (jam, md), lg) \<Longrightarrow>
   save E (path_join output_path filename) jam = Some e \<Longrightarrow>
   e \<notin> range SchemaError \<Longrightarrow>
   parse_jams E jams_path output_path annotation_type filename replace w
     = (Inl e, w\<lparr>logs := lg\<rparr>)"
  by (cases e) (auto simp: parse_jams_def)

lemma convert_files_raise_aborts:
  "isfile E (path_join jams_path file) \<Longrightarrow>
   parse_jams E (path_join jams_path file) converted_jams_dir annotation_type file replace
     (w\<lparr>logs := logs w @
          [Info ([CHR 0x0A] @ ''Converting observation for file: '' @ file @ [CHR 0x0A])]\<rparr>)
     = (Inl e, w') \<Longrightarrow>
   convert_files E jams_path converted_jams_dir annotation_type replace (file # files)
     (metadata, w) = (Inl e, w')"
  by (simp add: Let_def)

lemma parse_jams_dataset_raise_aborts:
  "convert_files E jams_path (create_dir E (path_join output_path ''jams_converted''))
     annotation_type replace (listdir E jams_path) ([], w) = (Inl e, w') \<Longrightarrow>
   parse_jams_dataset E jams_path output_path annotation_type replace w = (Inl e, w')"
  by (simp add: parse_jams_dataset_def)

text \<open>
  C1. The pair (C, C:maj) is converted twice in \<open>a.jams\<close> and once in \<open>b.jams\<close>, three
  times in all. After \<open>a.jams\<close> its count is 2; after \<open>b.jams\<close> it is 1, and 1 is what the
  table holds: \<open>dict.update\<close> assigns the count of the last file instead of adding it.
\<close>
theorem update_overwrites_counts:
  "map obs_value (data chord_a @ data chord_b) = [''C'', ''C'', ''C'']
   \<and> fst (convert_files (example_env save_ok) ''in'' ''out/jams_converted'' ''leadsheet'' False
          [''a.jams''] ([], empty_world))
     = Inr [((''C'', ''C:maj''), 2)]
   \<and> fst (convert_files (example_env save_ok) ''in'' ''out/jams_converted'' ''leadsheet'' False
            [''a.jams'', ''b.jams''] ([], empty_world))
       = Inr [((''C'', ''C:maj''), 1)]
   \<and> tables (snd (parse_jams_dataset (example_env save_ok) ''in'' ''out'' ''leadsheet'' False
                    empty_world))
       = [(''out/conversion_meta.csv'', [(''C'', ''C:maj'', 1)])]"
  by (simp add: run_defs)

text \<open>
  C2. The converted \<open>a.jams\<close> cannot be written: saving raises \<open>PermissionError\<close>. Nothing
  catches it, so nothing is logged about it, \<open>parse_jams\<close> and \<open>parse_jams_dataset\<close> raise
  it, \<open>b.jams\<close> is not processed and no table is written.
\<close>
theorem save_failure_aborts_batch:
  "save_a_denied ''out/jams_converted/a.jams''
       \<lparr>file_metadata = ''meta a'', sandbox = ''sandbox a'', annotations = []\<rparr>
     = Some (OtherException ''PermissionError'' ''Permission denied'')
   \<and> parse_jams_dataset (example_env save_a_denied) ''in'' ''out'' ''leadsheet'' False
        empty_world
     = (Inl (OtherException ''PermissionError'' ''Permission denied''),
        \<lparr>logs = [Info ([CHR 0x0A] @ ''Converting observation for file: a.jams'' @ [CHR 0x0A]),
                 Info ''Converting chord: C'', Info ''Converting chord: C''],
         saved = [], tables = []\<rparr>)"
  by (simp add: run_defs)

end
